theory Spec2Isabelle
  imports Complex_Main
begin

section \<open>The anonymous chat bot: data model\<close>

text \<open>
  The program keeps three tables in a PostgreSQL store and one dictionary in memory.
  A Telegram user identifier is a \<open>BIGINT\<close>, modelled as \<open>int\<close>. A store
  timestamp (\<open>TIMESTAMPTZ\<close>, the value of \<open>NOW()\<close>) is an \<open>int\<close> counting
  microseconds. The clock of the rate limiter (\<open>time.time()\<close>) is a \<open>real\<close>
  counting seconds: the limiter only subtracts two readings that lie close together,
  and that subtraction is exact on the floats the clock returns.

  \<^item> \<open>queues(user_id PRIMARY KEY, gender, nick, timestamp)\<close> is a list of rows,
    since the waiting pool is read in timestamp order;
  \<^item> \<open>active_chats(user_id PRIMARY KEY, partner_id, timestamp)\<close> and
    \<open>user_genders(user_id PRIMARY KEY, gender)\<close> are maps from the key to the row;
  \<^item> \<open>rate_limits\<close> is the \<open>defaultdict(list)\<close> of recorded send times.
\<close>

record queue_row =
  q_user_id :: int
  q_gender :: string
  q_nick :: string
  q_timestamp :: int

record chat_row =
  partner_id :: int
  c_timestamp :: int

record world =
  queues :: "queue_row list"
  active_chats :: "int \<rightharpoonup> chat_row"
  user_genders :: "int \<rightharpoonup> string"
  rate_limits :: "int \<rightharpoonup> real list"

text \<open>
  Every statement sent to the store and every delivery through the transport may raise.
  The calls of the handlers that may do so are named, and a handler is given the verdict
  of the outside world on each: whether the call is accepted or raises.
\<close>

datatype call =
    Select
  | Claim
  | PairTx
  | Enqueue
  | Notify
  | DeleteBoth
  | WithdrawPartner
  | DeleteOwn
  | WithdrawOwn
  | Commit
  | SelectGender
  | WriteGender
  | Sweep

text \<open>
  \<^item> \<open>Select\<close>: the \<open>SELECT partner_id FROM active_chats\<close> that opens a handler;
  \<^item> \<open>Claim\<close>: the transaction of \<open>get_queue\<close>;
  \<^item> \<open>PairTx\<close>: the insert, update and commit that create a pair;
  \<^item> \<open>Enqueue\<close>: the upsert of \<open>add_to_queue\<close>;
  \<^item> \<open>Notify\<close>: the message to the partner that \<open>stop\<close> and \<open>next_match\<close>
    send before they delete anything;
  \<^item> \<open>DeleteBoth\<close>: \<open>DELETE FROM active_chats WHERE user_id IN (u, p)\<close> and its commit;
  \<^item> \<open>WithdrawPartner\<close>, \<open>WithdrawOwn\<close>: the two calls of \<open>remove_from_queue\<close>;
  \<^item> \<open>DeleteOwn\<close>, \<open>Commit\<close>: the last two deletes of \<open>stop\<close> and their commit;
  \<^item> \<open>SelectGender\<close>: the \<open>SELECT gender FROM user_genders\<close> of \<open>next_match\<close>;
  \<^item> \<open>WriteGender\<close>: the write to \<open>user_genders\<close> of \<open>start\<close> and of
    \<open>handle_gender\<close>, with its commit;
  \<^item> \<open>Sweep\<close>: the delete of \<open>cleanup_inactive\<close> and its commit.

  A delivery is given a verdict only where the handler still has writes to make after
  it. The other deliveries follow the last write of their handler; they are listed as
  made, and a refused one changes no table.

  Besides the verdicts a handler needs the value of \<open>NOW()\<close> in its transactions and
  the two random draws (\<open>random.choice\<close>, \<open>random.randint\<close>) of each call of
  \<open>generate_pseudonym\<close>.
\<close>

record env =
  db_now :: int
  accepts :: "call \<Rightarrow> bool"
  draw1 :: "nat \<times> nat"
  draw2 :: "nat \<times> nat"

datatype db_error = CardinalityViolation | StoreUnavailable

text \<open>
  What a handler lets the outside see: the messages the bot sends, by recipient, and
  the error its \<open>except\<close> clause logs (\<open>ErrorLogged\<close>, with the name of the
  handler). The wording of a message is not modelled, only which message it is and the
  data it carries; \<open>ErrorRetry\<close> stands for the apology a handler sends from its
  \<open>except\<close> clause.
\<close>

datatype notice =
    ChatStarted int string
  | Searching int string string
  | ErrorLogged string
  | ErrorRetry int
  | AlreadyInChat int
  | Welcome int
  | GenderChosen int
  | PartnerNext int
  | PartnerStopped int
  | NotInChat int
  | TooFast int
  | NoPartner int
  | ForbiddenWord int
  | SendText int string
  | ForwardMedia int "string option"

datatype payload = Text string | Media "string option"

section \<open>Pseudonyms and the forbidden-word check\<close>

definition FORBIDDEN_WORDS :: "string list" where
  "FORBIDDEN_WORDS = [''spam'', ''badword'']"

definition MALE_NICKNAMES :: "string list" where
  "MALE_NICKNAMES = [''AnonGuy'', ''MisterX'', ''BroChat'', ''DudeAnon'']"

definition FEMALE_NICKNAMES :: "string list" where
  "FEMALE_NICKNAMES = [''AnonGal'', ''MissY'', ''SisChat'', ''LadyAnon'']"

fun str_nat :: "nat \<Rightarrow> string" where
  "str_nat n =
     (if n < 10 then [char_of (48 + n)]
      else str_nat (n div 10) @ [char_of (48 + n mod 10)])"

declare str_nat.simps [simp del]

text \<open>
  \<open>random.choice(xs)\<close> returns some element of \<open>xs\<close> and
  \<open>random.randint(100, 999)\<close> some integer from 100 to 999; the draw \<open>(i, k)\<close>
  fixes which.
\<close>

definition generate_pseudonym :: "string \<Rightarrow> nat \<times> nat \<Rightarrow> string" where
  "generate_pseudonym gender d =
     (let base = (if gender = ''male''
                  then MALE_NICKNAMES ! (fst d mod length MALE_NICKNAMES)
                  else FEMALE_NICKNAMES ! (fst d mod length FEMALE_NICKNAMES))
      in base @ str_nat (100 + snd d mod 900))"

text \<open>
  \<open>text.lower()\<close>, on the bytes of the text: an ASCII capital becomes its small
  letter and every other byte stays. Python lowers other capitals as well, none of
  them to a letter of a forbidden word, so the check below decides as the source does.
\<close>

definition lower_char :: "char \<Rightarrow> char" where
  "lower_char c =
     (let n = (of_char c :: nat) in if 65 \<le> n \<and> n \<le> 90 then char_of (n + 32) else c)"

definition lower :: "string \<Rightarrow> string" where
  "lower t = map lower_char t"

text \<open>\<open>word in text\<close> on Python strings: \<open>word\<close> occurs as a contiguous part.\<close>

fun contains :: "string \<Rightarrow> string \<Rightarrow> bool" where
  "contains w [] = (w = [])"
| "contains w (c # cs) = (take (length w) (c # cs) = w \<or> contains w cs)"

definition check_forbidden :: "string \<Rightarrow> bool" where
  "check_forbidden t = list_ex (\<lambda>w. contains w (lower t)) FORBIDDEN_WORDS"

section \<open>The rate limiter\<close>

text \<open>
  Reading \<open>rate_limits[user_id]\<close> of a \<open>defaultdict(list)\<close> gives the empty list
  for a user without an entry.
\<close>

definition recorded :: "(int \<rightharpoonup> real list) \<Rightarrow> int \<Rightarrow> real list" where
  "recorded rl u = (case rl u of None \<Rightarrow> [] | Some ts \<Rightarrow> ts)"

definition is_rate_limited :: "real \<Rightarrow> world \<Rightarrow> int \<Rightarrow> bool \<times> world" where
  "is_rate_limited now s u =
     (let kept = filter (\<lambda>t. now - t < 1) (recorded (rate_limits s) u);
          s1 = s\<lparr>rate_limits := (rate_limits s)(u \<mapsto> kept)\<rparr>
      in if length kept \<ge> 1 then (True, s1)
         else (False, s1\<lparr>rate_limits := (rate_limits s1)(u \<mapsto> kept @ [now])\<rparr>))"

section \<open>The waiting pool\<close>

text \<open>
  \<open>ORDER BY timestamp LIMIT 1\<close>: a row with the least timestamp. Among rows with
  the same timestamp the store may return any; the model returns the first of the list.
\<close>

fun oldest :: "queue_row list \<Rightarrow> queue_row option" where
  "oldest [] = None"
| "oldest (r # rs) =
     (case oldest rs of
        None \<Rightarrow> Some r
      | Some m \<Rightarrow> if q_timestamp r \<le> q_timestamp m then Some r else Some m)"

text \<open>
  \<open>get_queue\<close> selects the oldest row of the gender and deletes it, in one
  transaction. Its \<open>except\<close> clause turns an exception of the store into the answer
  \<open>None\<close>; nothing was committed then.
\<close>

definition get_queue :: "env \<Rightarrow> string \<Rightarrow> world \<Rightarrow> (int \<times> string \<times> string) option \<times> world" where
  "get_queue e gender s =
     (if \<not> accepts e Claim then (None, s)
      else case oldest (filter (\<lambda>r. q_gender r = gender) (queues s)) of
             None \<Rightarrow> (None, s)
           | Some row \<Rightarrow>
               (Some (q_user_id row, q_nick row, q_gender row),
                s\<lparr>queues := filter (\<lambda>r. q_user_id r \<noteq> q_user_id row) (queues s)\<rparr>))"

text \<open>
  \<open>INSERT ... ON CONFLICT (user_id) DO UPDATE SET gender, nick, timestamp\<close>: the row
  of the user is rewritten where it stands, or a new row is added. An exception of the
  store is logged by \<open>add_to_queue\<close> itself and the caller goes on.
\<close>

definition add_to_queue :: "env \<Rightarrow> world \<Rightarrow> int \<Rightarrow> string \<Rightarrow> string \<Rightarrow> world" where
  "add_to_queue e s u gender nick =
     (if \<not> accepts e Enqueue then s
      else if list_ex (\<lambda>r. q_user_id r = u) (queues s)
      then s\<lparr>queues := map (\<lambda>r. if q_user_id r = u
                                 then r\<lparr>q_gender := gender, q_nick := nick,
                                        q_timestamp := db_now e\<rparr>
                                 else r) (queues s)\<rparr>
      else s\<lparr>queues := queues s @
                 [\<lparr>q_user_id = u, q_gender = gender, q_nick = nick,
                   q_timestamp = db_now e\<rparr>]\<rparr>)"

text \<open>
  \<open>DELETE FROM queues WHERE user_id = u\<close>. \<open>remove_from_queue\<close> too logs an
  exception of the store itself; \<open>accepted\<close> is the verdict on this call.
\<close>

definition remove_from_queue :: "bool \<Rightarrow> world \<Rightarrow> int \<Rightarrow> world" where
  "remove_from_queue accepted s u =
     (if accepted then s\<lparr>queues := filter (\<lambda>r. q_user_id r \<noteq> u) (queues s)\<rparr> else s)"

section \<open>The session store\<close>

text \<open>
  One proposed row \<open>(k, v)\<close> of the pairing statement
  \<open>INSERT INTO active_chats (user_id, partner_id) VALUES (u, p), (p, u)
  ON CONFLICT (user_id) DO UPDATE SET partner_id = p\<close>: a new row takes the proposed
  partner and the default timestamp \<open>NOW()\<close>; an existing row keeps its timestamp
  and takes the partner named in the \<open>SET\<close> clause.
\<close>

definition upsert_chat ::
    "int \<Rightarrow> int \<Rightarrow> (int \<rightharpoonup> chat_row) \<Rightarrow> int \<Rightarrow> int \<Rightarrow> (int \<rightharpoonup> chat_row)" where
  "upsert_chat now on_conflict c k v =
     (case c k of
        None \<Rightarrow> c(k \<mapsto> \<lparr>partner_id = v, c_timestamp = now\<rparr>)
      | Some r \<Rightarrow> c(k \<mapsto> r\<lparr>partner_id := on_conflict\<rparr>))"

text \<open>\<open>UPDATE active_chats SET timestamp = NOW() WHERE user_id IN (u, p)\<close>.\<close>

definition touch_chats :: "int \<Rightarrow> (int \<rightharpoonup> chat_row) \<Rightarrow> int \<Rightarrow> int \<Rightarrow> (int \<rightharpoonup> chat_row)" where
  "touch_chats now c u p =
     (\<lambda>k. if k = u \<or> k = p then map_option (\<lambda>r. r\<lparr>c_timestamp := now\<rparr>) (c k) else c k)"

text \<open>
  The pairing transaction: the insert, the update and the commit. It raises when the
  store does not accept it, and the store refuses an \<open>ON CONFLICT DO UPDATE\<close> whose
  proposed rows share a key, as they do when \<open>u = p\<close>. Nothing is written then.
\<close>

definition pair_tx :: "env \<Rightarrow> (int \<rightharpoonup> chat_row) \<Rightarrow> int \<Rightarrow> int \<Rightarrow> db_error + (int \<rightharpoonup> chat_row)" where
  "pair_tx e c u p =
     (if \<not> accepts e PairTx then Inl StoreUnavailable
      else if u = p then Inl CardinalityViolation
      else Inr (touch_chats (db_now e)
                  (upsert_chat (db_now e) p (upsert_chat (db_now e) p c u p) p u) u p))"

text \<open>
  \<open>partner_id = partner_row[0] if partner_row else None\<close>. The handlers then
  test \<open>if partner_id:\<close>, which the identifier 0 fails as \<open>None\<close> does;
  they are modelled by a case on the lookup and the test \<open>p \<noteq> 0\<close>.
\<close>

definition lookup_partner :: "world \<Rightarrow> int \<Rightarrow> int option" where
  "lookup_partner s u = map_option partner_id (active_chats s u)"



section \<open>The matchmaker\<close>

text \<open>
  The body of either branch of \<open>try_pair_gender\<close> once a partner was taken from the
  pool: the pairing transaction, the two pseudonyms, the two notices. An exception of
  the transaction is caught by the \<open>except\<close> clause of \<open>try_pair_gender\<close>, which
  logs it and tells the user to retry.
\<close>

definition pair_up ::
    "env \<Rightarrow> world \<Rightarrow> int \<Rightarrow> string \<Rightarrow> string \<Rightarrow> int \<times> string \<times> string \<Rightarrow> world \<times> notice list" where
  "pair_up e s u gender other partner_data =
     (case partner_data of (p, partner_nick, _) \<Rightarrow>
        (case pair_tx e (active_chats s) u p of
           Inl err \<Rightarrow> (s, [ErrorLogged ''try_pair_gender'', ErrorRetry u])
         | Inr c \<Rightarrow>
             (let user_nick = generate_pseudonym gender (draw1 e);
                  partner_nick = generate_pseudonym other (draw2 e)
              in (s\<lparr>active_chats := c\<rparr>,
                  [ChatStarted u partner_nick, ChatStarted p user_nick]))))"

definition enqueue_self :: "env \<Rightarrow> world \<Rightarrow> int \<Rightarrow> string \<Rightarrow> world \<times> notice list" where
  "enqueue_self e s u gender =
     (let nick = generate_pseudonym gender (draw1 e)
      in (add_to_queue e s u gender nick,
          [Searching u (if gender = ''male'' then ''wanita'' else ''pria'') nick]))"

definition try_pair_gender :: "env \<Rightarrow> world \<Rightarrow> int \<Rightarrow> string \<Rightarrow> world \<times> notice list" where
  "try_pair_gender e s u gender =
     (if \<not> accepts e Select then (s, [ErrorLogged ''try_pair_gender'', ErrorRetry u])
      else if active_chats s u \<noteq> None then (s, [])
      else if gender = ''male'' then
        (case get_queue e ''female'' s of
           (Some partner_data, s1) \<Rightarrow> pair_up e s1 u gender ''female'' partner_data
         | (None, s1) \<Rightarrow> enqueue_self e s1 u gender)
      else if gender = ''female'' then
        (case get_queue e ''male'' s of
           (Some partner_data, s1) \<Rightarrow> pair_up e s1 u gender ''male'' partner_data
         | (None, s1) \<Rightarrow> enqueue_self e s1 u gender)
      else enqueue_self e s u gender)"

definition start :: "env \<Rightarrow> world \<Rightarrow> int \<Rightarrow> world \<times> notice list" where
  "start e s u =
     (if \<not> accepts e Select then (s, [ErrorLogged ''start'', ErrorRetry u])
      else if active_chats s u \<noteq> None then (s, [AlreadyInChat u])
      else if \<not> accepts e WriteGender then (s, [ErrorLogged ''start'', ErrorRetry u])
      else (s\<lparr>user_genders := (user_genders s)(u := None)\<rparr>, [Welcome u]))"

definition handle_gender :: "env \<Rightarrow> world \<Rightarrow> int \<Rightarrow> string \<Rightarrow> world \<times> notice list" where
  "handle_gender e s u gender =
     (if \<not> accepts e WriteGender then (s, [ErrorLogged ''handle_gender'', ErrorRetry u])
      else (let s1 = s\<lparr>user_genders := (user_genders s)(u \<mapsto> gender)\<rparr>;
                (s2, out) = try_pair_gender e s1 u gender
            in (s2, GenderChosen u # out)))"

text \<open>
  The teardown shared by \<open>next_match\<close> and \<open>stop\<close>, after the partner was told:
  \<open>DELETE FROM active_chats WHERE user_id IN (u, p)\<close> with its commit, then
  \<open>remove_from_queue(p)\<close>.
\<close>

definition end_chat :: "env \<Rightarrow> world \<Rightarrow> int \<Rightarrow> int \<Rightarrow> world" where
  "end_chat e s u p =
     remove_from_queue (accepts e WithdrawPartner)
       (s\<lparr>active_chats := (active_chats s)(u := None, p := None)\<rparr>) p"

text \<open>
  \<open>next_match\<close>. Its own calls take their verdicts from \<open>e\<close>, the call of
  \<open>try_pair_gender\<close> that ends it from \<open>e2\<close>. An exception is logged by the
  \<open>except\<close> clause and ends the handler where it stands.
\<close>

definition next_match :: "env \<Rightarrow> env \<Rightarrow> world \<Rightarrow> int \<Rightarrow> world \<times> notice list" where
  "next_match e e2 s u =
     (if \<not> accepts e Select then (s, [ErrorLogged ''next_match''])
      else case lookup_partner s u of
        Some p \<Rightarrow>
          if p \<noteq> 0 then
            (if \<not> accepts e Notify then (s, [ErrorLogged ''next_match''])
             else if \<not> accepts e DeleteBoth
             then (s, [PartnerNext p, ErrorLogged ''next_match''])
             else (let s1 = end_chat e s u p
                   in if \<not> accepts e SelectGender
                      then (s1, [PartnerNext p, ErrorLogged ''next_match''])
                      else case user_genders s1 u of
                             Some gender \<Rightarrow>
                               if gender \<noteq> [] then
                                 (let (s2, out) = try_pair_gender e2 s1 u gender
                                  in (s2, PartnerNext p # out))
                               else (s1, [PartnerNext p])
                           | None \<Rightarrow> (s1, [PartnerNext p])))
          else (s, [NotInChat u])
      | None \<Rightarrow> (s, [NotInChat u]))"

text \<open>
  The end of \<open>stop\<close>, run with or without a partner: the deletes of the user's own
  rows of \<open>active_chats\<close> and \<open>user_genders\<close>, then \<open>remove_from_queue(user_id)\<close>
  on a connection of its own, then the commit of the two deletes.
\<close>

definition stop_own :: "env \<Rightarrow> world \<Rightarrow> int \<Rightarrow> notice list \<Rightarrow> world \<times> notice list" where
  "stop_own e s u out =
     (if \<not> accepts e DeleteOwn then (s, out @ [ErrorLogged ''stop''])
      else (let s1 = remove_from_queue (accepts e WithdrawOwn) s u
            in if \<not> accepts e Commit then (s1, out @ [ErrorLogged ''stop''])
               else (s1\<lparr>active_chats := (active_chats s1)(u := None),
                        user_genders := (user_genders s1)(u := None)\<rparr>, out)))"

text \<open>
  \<open>stop\<close>. The partner is told first, inside the \<open>try\<close>: when that delivery
  raises, the \<open>except\<close> clause logs it and nothing is deleted.
\<close>

definition stop :: "env \<Rightarrow> world \<Rightarrow> int \<Rightarrow> world \<times> notice list" where
  "stop e s u =
     (if \<not> accepts e Select then (s, [ErrorLogged ''stop''])
      else case lookup_partner s u of
        Some p \<Rightarrow>
          if p \<noteq> 0 then
            (if \<not> accepts e Notify then (s, [ErrorLogged ''stop''])
             else if \<not> accepts e DeleteBoth
             then (s, [PartnerStopped p, ErrorLogged ''stop''])
             else stop_own e (end_chat e s u p) u [PartnerStopped p])
          else stop_own e s u []
      | None \<Rightarrow> stop_own e s u [])"

section \<open>Relaying a message\<close>

text \<open>
  \<open>handle_generic_message\<close>: the rate limiter, the lookup of the partner, the
  forbidden-word check on a text, the delivery. A text goes out behind the label
  \<open>*Anon:*\<close>, and so does the caption of other content when it has one. When the
  lookup raises, the \<open>except\<close> clause logs it and apologises to the sender.
\<close>

definition anon_label :: "string \<Rightarrow> string" where
  "anon_label t = ''*Anon:* '' @ t"

definition handle_generic_message ::
    "env \<Rightarrow> real \<Rightarrow> world \<Rightarrow> int \<Rightarrow> payload \<Rightarrow> world \<times> notice list" where
  "handle_generic_message e now s u content =
     (case is_rate_limited now s u of
        (True, s1) \<Rightarrow> (s1, [TooFast u])
      | (False, s1) \<Rightarrow>
          if \<not> accepts e Select
          then (s1, [ErrorLogged ''handle_generic_message'', ErrorRetry u])
          else (case lookup_partner s1 u of
                  None \<Rightarrow> (s1, [NoPartner u])
                | Some p \<Rightarrow>
                    if p = 0 then (s1, [NoPartner u])
                    else (case content of
                            Text t \<Rightarrow>
                              if check_forbidden t then (s1, [ForbiddenWord u])
                              else (s1, [SendText p (anon_label t)])
                          | Media caption \<Rightarrow>
                              (s1, [ForwardMedia p
                                      (case caption of
                                         None \<Rightarrow> None
                                       | Some cap \<Rightarrow>
                                           if cap \<noteq> [] then Some (anon_label cap)
                                           else None)]))))"


section \<open>Vocabulary of the properties\<close>

text \<open>
  Symmetry of the session store as the specification words it: a row of \<open>u\<close>
  with partner \<open>p\<close> exists exactly when a row of \<open>p\<close> with partner \<open>u\<close> does.
\<close>

definition symmetric :: "world \<Rightarrow> bool" where
  "symmetric s \<longleftrightarrow>
     (\<forall>u p. (\<exists>r. active_chats s u = Some r \<and> partner_id r = p) \<longleftrightarrow>
            (\<exists>r. active_chats s p = Some r \<and> partner_id r = u))"

text \<open>
  The form of symmetry that the operations keep: the row of the partner carries the
  same timestamp, and 0, which the handlers read as "no partner", is no partner.
\<close>

definition sessions_ok :: "world \<Rightarrow> bool" where
  "sessions_ok s \<longleftrightarrow>
     (\<forall>u r. active_chats s u = Some r \<longrightarrow>
        partner_id r \<noteq> 0 \<and>
        active_chats s (partner_id r) = Some \<lparr>partner_id = u, c_timestamp = c_timestamp r\<rparr>)"

text \<open>The primary key of the waiting pool: one row for a user at most.\<close>

definition queue_pk :: "world \<Rightarrow> bool" where
  "queue_pk s \<longleftrightarrow> distinct (map q_user_id (queues s))"

text \<open>The gender whose pool \<open>try_pair_gender\<close> reads for a user of a gender.\<close>

definition opposite :: "string \<Rightarrow> string" where
  "opposite gender = (if gender = ''male'' then ''female'' else ''male'')"

text \<open>
  The user whom \<open>try_pair_gender\<close> would take from the pool for a user of the
  given gender, if any.
\<close>

definition candidate :: "env \<Rightarrow> world \<Rightarrow> string \<Rightarrow> int option" where
  "candidate e s gender =
     (if gender = ''male'' \<or> gender = ''female''
      then map_option fst (fst (get_queue e (opposite gender) s))
      else None)"

text \<open>The outside world that accepts every call, and the one that refuses just one.\<close>

definition env_at :: "int \<Rightarrow> env" where
  "env_at t = \<lparr>db_now = t, accepts = (\<lambda>c. True), draw1 = (0, 0), draw2 = (1, 1)\<rparr>"

definition refusing :: "call \<Rightarrow> int \<Rightarrow> env" where
  "refusing c t = \<lparr>db_now = t, accepts = (\<lambda>x. x \<noteq> c), draw1 = (0, 0), draw2 = (1, 1)\<rparr>"

text \<open>A handler runs through when every call it makes is accepted.\<close>

definition all_accepted :: "env \<Rightarrow> bool" where
  "all_accepted e \<longleftrightarrow>
     list_all (accepts e)
       [Select, Claim, PairTx, Enqueue, Notify, DeleteBoth, WithdrawPartner, DeleteOwn,
        WithdrawOwn, Commit, SelectGender, WriteGender, Sweep]"

text \<open>
  A run of the bot from the empty store, for the examples: user 10 and then user 20
  declare female and wait; user 20 sends \<open>/start\<close>, declares male and is paired
  with user 10, the older entry, while the entry of user 20 stays in the pool; then
  user 30 declares male.
\<close>

definition empty_world :: world where
  "empty_world =
     \<lparr>queues = [], active_chats = Map.empty, user_genders = Map.empty,
      rate_limits = Map.empty\<rparr>"

definition w1 :: world where
  "w1 = fst (handle_gender (env_at 1000) empty_world 10 ''female'')"

definition w2 :: world where
  "w2 = fst (handle_gender (env_at 2000) w1 20 ''female'')"

definition w3 :: world where
  "w3 = fst (handle_gender (env_at 3000) (fst (start (env_at 2500) w2 20)) 20 ''male'')"

definition w4 :: world where
  "w4 = fst (handle_gender (env_at 4000) w3 30 ''male'')"

text \<open>The two rows of the pool after users 10 and 20 have declared.\<close>

definition row10 :: queue_row where
  "row10 = \<lparr>q_user_id = 10, q_gender = ''female'', q_nick = ''AnonGal100'', q_timestamp = 1000\<rparr>"

definition row20 :: queue_row where
  "row20 = \<lparr>q_user_id = 20, q_gender = ''female'', q_nick = ''AnonGal100'', q_timestamp = 2000\<rparr>"

text \<open>
  A world in which the wall clock has stepped back: user 7 sent a message when the
  clock read 3650, and the clock now reads 50.
\<close>

definition future_world :: world where
  "future_world = snd (is_rate_limited 3650 empty_world 7)"


section \<open>The rate limiter admits one message per second\<close>

text \<open>
  C9, the claim as worded fails: in \<open>future_world\<close> the only recorded time of
  user 7 is 3650, which is not within the second before the reading 50, and yet the
  call at 50 is refused.
\<close>

theorem is_rate_limited_window_counterexample:
  "recorded (rate_limits future_world) 7 = [3650] \<and>
   \<not> (50 - 1 < (3650 :: real) \<and> (3650 :: real) \<le> 50) \<and>
   fst (is_rate_limited 50 future_world 7)"
  by (simp add: future_world_def is_rate_limited_def empty_world_def recorded_def Let_def)

text \<open>
  C9, amended. The specification's \<open>allow\<close> is the negation of
  \<open>is_rate_limited\<close>. The call is refused exactly when a recorded time \<open>t\<close> of
  the user has \<open>now - t < 1\<close>; when no recorded time is later than the reading of the
  clock, that is exactly when a recorded time lies within the second before the
  reading. Otherwise the reading is recorded and the call is admitted. So when nothing
  was recorded in the last second or later, a first call is admitted and a second call
  less than a second after it (200 ms, say) is refused.
\<close>

theorem is_rate_limited_window:
  "(fst (is_rate_limited now s u) \<longleftrightarrow>
      (\<exists>t \<in> set (recorded (rate_limits s) u). now - 1 < t)) \<and>
   ((\<forall>t \<in> set (recorded (rate_limits s) u). t \<le> now) \<longrightarrow>
      (fst (is_rate_limited now s u) \<longleftrightarrow>
         (\<exists>t \<in> set (recorded (rate_limits s) u). now - 1 < t \<and> t \<le> now))) \<and>
   (\<not> fst (is_rate_limited now s u) \<longrightarrow>
      recorded (rate_limits (snd (is_rate_limited now s u))) u = [now]) \<and>
   ((\<forall>t \<in> set (recorded (rate_limits s) u). t \<le> now - 1) \<and> d < 1 \<longrightarrow>
      \<not> fst (is_rate_limited now s u) \<and>
      fst (is_rate_limited (now + d) (snd (is_rate_limited now s u)) u))"
proof -
  let ?kept = "filter (\<lambda>t. now - t < 1) (recorded (rate_limits s) u)"
  have limited: "fst (is_rate_limited now s u) \<longleftrightarrow> ?kept \<noteq> []"
    by (cases ?kept) (simp_all add: is_rate_limited_def Let_def)
  have window: "?kept \<noteq> [] \<longleftrightarrow> (\<exists>t \<in> set (recorded (rate_limits s) u). now - 1 < t)"
  proof -
    have "now - t < 1 \<longleftrightarrow> now - 1 < t" for t
      by linarith
    then show ?thesis
      by (simp add: filter_empty_conv)
  qed
  have bounded: "fst (is_rate_limited now s u) \<longleftrightarrow>
      (\<exists>t \<in> set (recorded (rate_limits s) u). now - 1 < t \<and> t \<le> now)"
    if "\<forall>t \<in> set (recorded (rate_limits s) u). t \<le> now"
    using that limited window by blast
  have records: "recorded (rate_limits (snd (is_rate_limited now s u))) u = [now]"
    if "\<not> fst (is_rate_limited now s u)"
    using that limited by (simp add: is_rate_limited_def Let_def recorded_def)
  have second: "fst (is_rate_limited (now + d) (snd (is_rate_limited now s u)) u)"
    if "\<not> fst (is_rate_limited now s u)" and "d < 1"
    using that records [OF that(1)] by (simp add: is_rate_limited_def [of "now + d"] Let_def)
  have first: "\<not> fst (is_rate_limited now s u)"
    if "\<forall>t \<in> set (recorded (rate_limits s) u). t \<le> now - 1"
    using that limited window by fastforce
  show ?thesis
    using limited window bounded records second first by blast
qed

theorem is_rate_limited_window_witness:
  "\<not> fst (is_rate_limited 50 empty_world 7) \<and>
   fst (is_rate_limited (50 + 1 / 5) (snd (is_rate_limited 50 empty_world 7)) 7) \<and>
   (fst (is_rate_limited 3651 future_world 7) \<longleftrightarrow>
      (\<exists>t \<in> set (recorded (rate_limits future_world) 7). 3651 - 1 < t \<and> t \<le> 3651))"
proof -
  have none: "\<forall>t \<in> set (recorded (rate_limits empty_world) 7). t \<le> 50 - 1"
    by (simp add: empty_world_def recorded_def)
  have short: "(1 / 5 :: real) < 1"
    by simp
  have past: "\<forall>t \<in> set (recorded (rate_limits future_world) 7). t \<le> 3651"
    by (simp add: future_world_def is_rate_limited_def empty_world_def recorded_def Let_def)
  show ?thesis
    using is_rate_limited_window [of 50 empty_world 7 "1 / 5"]
      is_rate_limited_window [of 3651 future_world 7 0] none short past
    by blast
qed

section \<open>Relaying leaves the pool and the sessions alone\<close>

lemma is_rate_limited_frame:
  "queues (snd (is_rate_limited now s u)) = queues s \<and>
   active_chats (snd (is_rate_limited now s u)) = active_chats s \<and>
   user_genders (snd (is_rate_limited now s u)) = user_genders s"
  by (simp add: is_rate_limited_def Let_def)

lemma handle_generic_message_state:
  "fst (handle_generic_message e now s u content) = snd (is_rate_limited now s u)"
proof -
  obtain b s1 where lim: "is_rate_limited now s u = (b, s1)"
    by (cases "is_rate_limited now s u")
  show ?thesis
    by (simp add: handle_generic_message_def lim
        split: bool.splits option.splits payload.splits)
qed

text \<open>
  C8. Whatever the sender and the content, and in each of its branches (too fast, no
  partner, forbidden word, delivery, and the lookup that raises),
  \<open>handle_generic_message\<close> returns the waiting pool and the session store it was
  given; only the record of the rate limiter changes.
\<close>

theorem handle_generic_message_frame:
  "queues (fst (handle_generic_message e now s u content)) = queues s \<and>
   active_chats (fst (handle_generic_message e now s u content)) = active_chats s \<and>
   user_genders (fst (handle_generic_message e now s u content)) = user_genders s"
  using is_rate_limited_frame [of now s u]
  by (simp add: handle_generic_message_state)

theorem handle_generic_message_frame_witness:
  "snd (handle_generic_message (env_at 0) 50 w3 10 (Text ''hi'')) =
     [SendText 20 ''*Anon:* hi''] \<and>
   queues (fst (handle_generic_message (env_at 0) 50 w3 10 (Text ''hi''))) = queues w3 \<and>
   active_chats (fst (handle_generic_message (env_at 0) 50 w3 10 (Text ''hi''))) =
     active_chats w3"
proof -
  have sent: "snd (handle_generic_message (env_at 0) 50 w3 10 (Text ''hi'')) =
      [SendText 20 ''*Anon:* hi'']"
    by code_simp
  show ?thesis
    using sent handle_generic_message_frame [of "env_at 0" 50 w3 10 "Text ''hi''"] by simp
qed

section \<open>Stopping twice\<close>








section \<open>Claiming from the waiting pool is oldest first\<close>

lemma oldest_None: "oldest xs = None \<longleftrightarrow> xs = []"
  by (induction xs) (auto split: option.splits)

lemma oldest_mem: "oldest xs = Some m \<Longrightarrow> m \<in> set xs"
  by (induction xs arbitrary: m) (auto split: option.splits if_splits)

lemma oldest_least: "oldest xs = Some m \<Longrightarrow> r \<in> set xs \<Longrightarrow> q_timestamp m \<le> q_timestamp r"
proof (induction xs arbitrary: m)
  case Nil
  then show ?case by simp
next
  case (Cons x xs)
  show ?case
  proof (cases "oldest xs")
    case None
    then have "xs = []" by (simp add: oldest_None)
    with Cons.prems None show ?thesis by simp
  next
    case (Some m')
    have le: "r \<in> set xs \<Longrightarrow> q_timestamp m' \<le> q_timestamp r"
      using Cons.IH [OF Some] by simp
    from Cons.prems Some le show ?thesis
      by (auto split: if_splits)
  qed
qed

lemma filter_key_remove1:
  "distinct (map f xs) \<Longrightarrow> x \<in> set xs \<Longrightarrow> filter (\<lambda>r. f r \<noteq> f x) xs = remove1 x xs"
proof (induction xs)
  case Nil
  then show ?case by simp
next
  case (Cons y ys)
  show ?case
  proof (cases "x = y")
    case True
    from Cons.prems have "f y \<notin> f ` set ys"
      by simp
    with True have "\<forall>r \<in> set ys. f r \<noteq> f x"
      by (metis imageI)
    then have "filter (\<lambda>r. f r \<noteq> f x) ys = ys"
      by (simp add: filter_id_conv)
    with True show ?thesis by simp
  next
    case False
    with Cons.prems have "x \<in> set ys" and "f y \<noteq> f x"
      by auto
    with Cons False show ?thesis by simp
  qed
qed

lemma get_queue_empty:
  "\<forall>r \<in> set (queues s). q_gender r \<noteq> g \<Longrightarrow> get_queue e g s = (None, s)"
proof -
  assume "\<forall>r \<in> set (queues s). q_gender r \<noteq> g"
  then have "filter (\<lambda>r. q_gender r = g) (queues s) = []"
    by (simp add: filter_empty_conv)
  then show ?thesis
    by (simp add: get_queue_def)
qed

lemma get_queue_row:
  assumes "accepts e Claim" and "r0 \<in> set (queues s)" and "q_gender r0 = g"
  obtains row where "row \<in> set (queues s)" and "q_gender row = g"
    and "\<forall>r \<in> set (queues s). q_gender r = g \<longrightarrow> q_timestamp row \<le> q_timestamp r"
    and "get_queue e g s = (Some (q_user_id row, q_nick row, q_gender row),
           s\<lparr>queues := filter (\<lambda>r. q_user_id r \<noteq> q_user_id row) (queues s)\<rparr>)"
proof -
  let ?pool = "filter (\<lambda>r. q_gender r = g) (queues s)"
  from assms(2,3) have "?pool \<noteq> []"
    by (auto simp: filter_empty_conv)
  then obtain row where row: "oldest ?pool = Some row"
    by (cases "oldest ?pool") (auto simp: oldest_None)
  have mem: "row \<in> set (queues s)" and gen: "q_gender row = g"
    using oldest_mem [OF row] by simp_all
  have least: "\<forall>r \<in> set (queues s). q_gender r = g \<longrightarrow> q_timestamp row \<le> q_timestamp r"
    using oldest_least [OF row] by simp
  have res: "get_queue e g s = (Some (q_user_id row, q_nick row, q_gender row),
           s\<lparr>queues := filter (\<lambda>r. q_user_id r \<noteq> q_user_id row) (queues s)\<rparr>)"
    using assms(1) by (simp add: get_queue_def row)
  show thesis
    by (rule that [OF mem gen least res])
qed

text \<open>
  C4, the claim as worded fails. The pool of \<open>w2\<close> holds two rows of gender
  female, and a claim that the store refuses returns nothing, as from an empty pool.
\<close>

theorem get_queue_refused_counterexample:
  "queues w2 = [row10, row20] \<and> q_gender row10 = ''female'' \<and>
   get_queue (refusing Claim 2500) ''female'' w2 = (None, w2)"
proof -
  have q: "queues w2 = [row10, row20]"
    unfolding row10_def row20_def by code_simp
  show ?thesis
    using q by (simp add: get_queue_def refusing_def row10_def)
qed

text \<open>
  C4, amended. \<open>get_queue\<close> is the specification's \<open>claim_oldest\<close>. When the
  pool has no row of the gender, or the store refuses the claim, it returns nothing and
  the pool as it was. When the store accepts the claim and the pool has a row of the
  gender, it returns a row of that gender with the least timestamp and removes that row
  and no other. Hence, of two waiting rows of the same gender, the one enqueued later is
  never returned while the earlier one is still in the pool. The table's primary key
  (one row for a user) is what makes the row removed the only one.
\<close>

theorem get_queue_oldest:
  "((\<not> accepts e Claim \<or> (\<forall>r \<in> set (queues s). q_gender r \<noteq> g)) \<longrightarrow>
      get_queue e g s = (None, s)) \<and>
   (accepts e Claim \<and> queue_pk s \<and> (\<exists>r \<in> set (queues s). q_gender r = g) \<longrightarrow>
      (\<exists>row \<in> set (queues s).
         q_gender row = g \<and>
         (\<forall>r \<in> set (queues s). q_gender r = g \<longrightarrow> q_timestamp row \<le> q_timestamp r) \<and>
         get_queue e g s = (Some (q_user_id row, q_nick row, q_gender row),
                            s\<lparr>queues := remove1 row (queues s)\<rparr>))) \<and>
   (queue_pk s \<and> a \<in> set (queues s) \<and> b \<in> set (queues s) \<and>
    q_gender a = g \<and> q_gender b = g \<and> q_timestamp a < q_timestamp b \<longrightarrow>
      map_option fst (fst (get_queue e g s)) \<noteq> Some (q_user_id b))"
proof (intro conjI impI)
  assume "\<not> accepts e Claim \<or> (\<forall>r \<in> set (queues s). q_gender r \<noteq> g)"
  then show "get_queue e g s = (None, s)"
  proof
    assume "\<not> accepts e Claim"
    then show ?thesis by (simp add: get_queue_def)
  next
    assume "\<forall>r \<in> set (queues s). q_gender r \<noteq> g"
    then show ?thesis by (rule get_queue_empty)
  qed
next
  assume h: "accepts e Claim \<and> queue_pk s \<and> (\<exists>r \<in> set (queues s). q_gender r = g)"
  then obtain r0 where "r0 \<in> set (queues s)" and "q_gender r0 = g"
    by blast
  with h obtain row where row: "row \<in> set (queues s)" "q_gender row = g"
      "\<forall>r \<in> set (queues s). q_gender r = g \<longrightarrow> q_timestamp row \<le> q_timestamp r"
      "get_queue e g s = (Some (q_user_id row, q_nick row, q_gender row),
           s\<lparr>queues := filter (\<lambda>r. q_user_id r \<noteq> q_user_id row) (queues s)\<rparr>)"
    using get_queue_row [of e r0 s g] by blast
  have "filter (\<lambda>r. q_user_id r \<noteq> q_user_id row) (queues s) = remove1 row (queues s)"
    using h row(1) by (simp add: queue_pk_def filter_key_remove1)
  with row show "\<exists>row \<in> set (queues s).
         q_gender row = g \<and>
         (\<forall>r \<in> set (queues s). q_gender r = g \<longrightarrow> q_timestamp row \<le> q_timestamp r) \<and>
         get_queue e g s = (Some (q_user_id row, q_nick row, q_gender row),
                            s\<lparr>queues := remove1 row (queues s)\<rparr>)"
    by auto
next
  assume h: "queue_pk s \<and> a \<in> set (queues s) \<and> b \<in> set (queues s) \<and>
    q_gender a = g \<and> q_gender b = g \<and> q_timestamp a < q_timestamp b"
  show "map_option fst (fst (get_queue e g s)) \<noteq> Some (q_user_id b)"
  proof (cases "accepts e Claim")
    case False
    then show ?thesis by (simp add: get_queue_def)
  next
    case True
    with h obtain row where row: "row \<in> set (queues s)" "q_gender row = g"
        "\<forall>r \<in> set (queues s). q_gender r = g \<longrightarrow> q_timestamp row \<le> q_timestamp r"
        "get_queue e g s = (Some (q_user_id row, q_nick row, q_gender row),
             s\<lparr>queues := filter (\<lambda>r. q_user_id r \<noteq> q_user_id row) (queues s)\<rparr>)"
      using get_queue_row [of e a s g] by blast
    from h row(3) have "q_timestamp row < q_timestamp b"
      by force
    then have "row \<noteq> b"
      by auto
    moreover from h have "inj_on q_user_id (set (queues s))"
      by (simp add: queue_pk_def distinct_map)
    ultimately have "q_user_id row \<noteq> q_user_id b"
      using row(1) h by (auto dest: inj_onD)
    then show ?thesis
      by (simp add: row(4))
  qed
qed

theorem get_queue_oldest_witness:
  "get_queue (env_at 2500) ''male'' w2 = (None, w2) \<and>
   map_option fst (fst (get_queue (env_at 2500) ''female'' w2)) \<noteq> Some 20 \<and>
   (\<exists>row \<in> set (queues w2).
      get_queue (env_at 2500) ''female'' w2 =
        (Some (q_user_id row, q_nick row, q_gender row),
         w2\<lparr>queues := remove1 row (queues w2)\<rparr>))"
proof -
  have q: "queues w2 = [row10, row20]"
    unfolding row10_def row20_def by code_simp
  have up: "accepts (env_at 2500) Claim"
    by (simp add: env_at_def)
  have pk: "queue_pk w2"
    by (simp add: queue_pk_def q row10_def row20_def)
  have no_male: "\<forall>r \<in> set (queues w2). q_gender r \<noteq> ''male''"
    by (simp add: q row10_def row20_def)
  have pool: "\<exists>r \<in> set (queues w2). q_gender r = ''female''"
    by (simp add: q row10_def row20_def)
  have order: "row10 \<in> set (queues w2) \<and> row20 \<in> set (queues w2) \<and>
      q_gender row10 = ''female'' \<and> q_gender row20 = ''female'' \<and>
      q_timestamp row10 < q_timestamp row20"
    by (simp add: q row10_def row20_def)
  have id: "q_user_id row20 = 20"
    by (simp add: row20_def)
  show ?thesis
    using get_queue_oldest [of "env_at 2500" w2 "''female''" row10 row20]
      get_queue_oldest [of "env_at 2500" w2 "''male''" row10 row20] up pk no_male pool order id
    by auto
qed

section \<open>What the pairing step writes\<close>

lemma get_queue_snd:
  "snd (get_queue e g s) =
     (case fst (get_queue e g s) of
        None \<Rightarrow> s
      | Some pd \<Rightarrow> s\<lparr>queues := filter (\<lambda>r. q_user_id r \<noteq> fst pd) (queues s)\<rparr>)"
  by (simp add: get_queue_def split: option.splits)

lemma candidate_waits:
  assumes "candidate e s g = Some p"
  shows "accepts e Claim \<and> (g = ''male'' \<or> g = ''female'') \<and>
         (\<exists>r \<in> set (queues s). q_user_id r = p \<and> q_gender r = opposite g)"
proof -
  from assms have g: "g = ''male'' \<or> g = ''female''"
    by (auto simp: candidate_def split: if_splits)
  with assms have up: "accepts e Claim"
    by (auto simp: candidate_def get_queue_def split: if_splits)
  from assms g up obtain row where
    "oldest (filter (\<lambda>r. q_gender r = opposite g) (queues s)) = Some row" and "q_user_id row = p"
    by (auto simp: candidate_def get_queue_def split: if_splits option.splits)
  then have "row \<in> set (filter (\<lambda>r. q_gender r = opposite g) (queues s))" and "q_user_id row = p"
    using oldest_mem by blast+
  with g up show ?thesis
    by auto
qed

lemma pair_up_fields:
  "queues (fst (pair_up e s u g other pd)) = queues s \<and>
   user_genders (fst (pair_up e s u g other pd)) = user_genders s \<and>
   rate_limits (fst (pair_up e s u g other pd)) = rate_limits s \<and>
   active_chats (fst (pair_up e s u g other pd)) =
     (case pair_tx e (active_chats s) u (fst pd) of Inl err \<Rightarrow> active_chats s | Inr c \<Rightarrow> c)"
  by (simp add: pair_up_def Let_def split: prod.splits sum.splits)

lemma enqueue_self_fields:
  "queues (fst (enqueue_self e s u g)) =
     queues (add_to_queue e s u g (generate_pseudonym g (draw1 e))) \<and>
   user_genders (fst (enqueue_self e s u g)) = user_genders s \<and>
   rate_limits (fst (enqueue_self e s u g)) = rate_limits s \<and>
   active_chats (fst (enqueue_self e s u g)) = active_chats s"
  by (simp add: enqueue_self_def Let_def add_to_queue_def)

lemma try_pair_gender_closed:
  "\<not> accepts e Select \<or> active_chats s u \<noteq> None \<Longrightarrow> fst (try_pair_gender e s u g) = s"
  by (auto simp: try_pair_gender_def)

lemma try_pair_gender_no_candidate:
  assumes "accepts e Select" and "active_chats s u = None" and "candidate e s g = None"
  shows "try_pair_gender e s u g = enqueue_self e s u g"
proof (cases "g = ''male'' \<or> g = ''female''")
  case False
  with assms(1,2) show ?thesis
    by (simp add: try_pair_gender_def)
next
  case True
  with assms(3) have none: "fst (get_queue e (opposite g) s) = None"
    by (simp add: candidate_def)
  then have "get_queue e (opposite g) s = (None, s)"
    using get_queue_snd [of e "opposite g" s] by (simp add: prod_eq_iff)
  with True assms(1,2) show ?thesis
    by (auto simp: try_pair_gender_def opposite_def)
qed

lemma try_pair_gender_candidate:
  assumes "accepts e Select" and "active_chats s u = None" and "candidate e s g = Some p"
  shows "\<exists>nick g'. try_pair_gender e s u g =
           pair_up e (s\<lparr>queues := filter (\<lambda>r. q_user_id r \<noteq> p) (queues s)\<rparr>) u g
             (opposite g) (p, nick, g')"
proof -
  from assms(3) have g: "g = ''male'' \<or> g = ''female''"
    using candidate_waits by blast
  with assms(3) obtain nick g' where pd: "fst (get_queue e (opposite g) s) = Some (p, nick, g')"
    by (auto simp: candidate_def)
  then have "get_queue e (opposite g) s =
      (Some (p, nick, g'), s\<lparr>queues := filter (\<lambda>r. q_user_id r \<noteq> p) (queues s)\<rparr>)"
    using get_queue_snd [of e "opposite g" s] by (simp add: prod_eq_iff)
  with g assms(1,2) have "try_pair_gender e s u g =
           pair_up e (s\<lparr>queues := filter (\<lambda>r. q_user_id r \<noteq> p) (queues s)\<rparr>) u g
             (opposite g) (p, nick, g')"
    by (auto simp: try_pair_gender_def opposite_def)
  then show ?thesis
    by blast
qed

lemma try_pair_gender_fields:
  "user_genders (fst (try_pair_gender e s u g)) = user_genders s \<and>
   rate_limits (fst (try_pair_gender e s u g)) = rate_limits s \<and>
   queues (fst (try_pair_gender e s u g)) =
     (if \<not> accepts e Select \<or> active_chats s u \<noteq> None then queues s
      else case candidate e s g of
             Some p \<Rightarrow> filter (\<lambda>r. q_user_id r \<noteq> p) (queues s)
           | None \<Rightarrow> queues (add_to_queue e s u g (generate_pseudonym g (draw1 e)))) \<and>
   active_chats (fst (try_pair_gender e s u g)) =
     (if \<not> accepts e Select \<or> active_chats s u \<noteq> None then active_chats s
      else case candidate e s g of
             Some p \<Rightarrow> (case pair_tx e (active_chats s) u p of
                          Inl err \<Rightarrow> active_chats s | Inr c \<Rightarrow> c)
           | None \<Rightarrow> active_chats s)"
proof (cases "\<not> accepts e Select \<or> active_chats s u \<noteq> None")
  case True
  then have "fst (try_pair_gender e s u g) = s"
    by (rule try_pair_gender_closed)
  with True show ?thesis
    by simp
next
  case False
  then have up: "accepts e Select" and idle: "active_chats s u = None"
    by simp_all
  show ?thesis
  proof (cases "candidate e s g")
    case None
    then show ?thesis
      using False enqueue_self_fields [of e s u g]
      by (simp add: try_pair_gender_no_candidate [OF up idle None])
  next
    case (Some p)
    then obtain nick g' where
      "try_pair_gender e s u g =
         pair_up e (s\<lparr>queues := filter (\<lambda>r. q_user_id r \<noteq> p) (queues s)\<rparr>) u g
           (opposite g) (p, nick, g')"
      using try_pair_gender_candidate [OF up idle Some] by blast
    then show ?thesis
      using False Some
        pair_up_fields [of e "s\<lparr>queues := filter (\<lambda>r. q_user_id r \<noteq> p) (queues s)\<rparr>" u g
          "opposite g" "(p, nick, g')"]
      by (simp split: sum.splits)
  qed
qed

lemma pair_tx_fresh:
  "accepts e PairTx \<Longrightarrow> u \<noteq> p \<Longrightarrow> c u = None \<Longrightarrow> c p = None \<Longrightarrow>
   pair_tx e c u p =
     Inr (c(u \<mapsto> \<lparr>partner_id = p, c_timestamp = db_now e\<rparr>,
            p \<mapsto> \<lparr>partner_id = u, c_timestamp = db_now e\<rparr>))"
  by (auto simp: pair_tx_def upsert_chat_def touch_chats_def fun_eq_iff)

lemma pair_tx_failed:
  "\<not> accepts e PairTx \<or> u = p \<Longrightarrow> \<exists>err. pair_tx e c u p = Inl err"
  by (auto simp: pair_tx_def)

section \<open>A pairing transaction that fails\<close>

lemma w2_queues: "queues w2 = [row10, row20]"
  unfolding row10_def row20_def by code_simp

lemma try_pair_gender_failed:
  assumes "accepts e Select" and "active_chats s u = None" and "candidate e s g = Some p"
    and "\<not> accepts e PairTx \<or> u = p"
  shows "try_pair_gender e s u g =
           (s\<lparr>queues := filter (\<lambda>r. q_user_id r \<noteq> p) (queues s)\<rparr>,
            [ErrorLogged ''try_pair_gender'', ErrorRetry u])"
proof -
  obtain nick g' where run: "try_pair_gender e s u g =
      pair_up e (s\<lparr>queues := filter (\<lambda>r. q_user_id r \<noteq> p) (queues s)\<rparr>) u g
        (opposite g) (p, nick, g')"
    using try_pair_gender_candidate [OF assms(1,2,3)] by blast
  obtain err where "pair_tx e (active_chats s) u p = Inl err"
    using pair_tx_failed [OF assms(4)] by blast
  then show ?thesis
    by (simp add: run pair_up_def)
qed

text \<open>
  C2, the claim as worded fails. User 30 declares male in \<open>w2\<close>, where users 10
  and 20 wait. \<open>get_queue\<close> takes the row of user 10 out of the pool and commits;
  the pairing transaction then raises; the pool is left without the row of user 10.
\<close>

theorem failed_pairing_counterexample:
  "queues w2 = [row10, row20] \<and>
   try_pair_gender (refusing PairTx 2500) w2 30 ''male'' =
     (w2\<lparr>queues := [row20]\<rparr>, [ErrorLogged ''try_pair_gender'', ErrorRetry 30])"
proof -
  have up: "accepts (refusing PairTx 2500) Select"
    by (simp add: refusing_def)
  have idle: "active_chats w2 30 = None"
    by code_simp
  have cand: "candidate (refusing PairTx 2500) w2 ''male'' = Some 10"
    by (simp add: candidate_def opposite_def get_queue_def refusing_def w2_queues
        row10_def row20_def)
  have down: "\<not> accepts (refusing PairTx 2500) PairTx \<or> (30 :: int) = 10"
    by (simp add: refusing_def)
  have rest: "filter (\<lambda>r. q_user_id r \<noteq> 10) (queues w2) = [row20]"
    by (simp add: w2_queues row10_def row20_def)
  have "try_pair_gender (refusing PairTx 2500) w2 30 ''male'' =
     (w2\<lparr>queues := [row20]\<rparr>, [ErrorLogged ''try_pair_gender'', ErrorRetry 30])"
    by (rule try_pair_gender_failed [OF up idle cand down, unfolded rest])
  with w2_queues show ?thesis
    by (intro conjI)
qed

text \<open>
  C2, amended. When the pairing transaction of \<open>try_pair_gender\<close> raises (the
  store refuses it, or the user was given their own entry as the partner), the session
  store and the declared genders are as before the attempt and the user is told to
  retry, but the waiting pool has lost the entry of the candidate: \<open>get_queue\<close>
  had committed its removal, and nothing puts it back.
\<close>

theorem failed_pairing_state:
  assumes "accepts e Select" and "active_chats s u = None" and "candidate e s g = Some p"
    and "\<not> accepts e PairTx \<or> u = p"
  shows "try_pair_gender e s u g =
           (s\<lparr>queues := filter (\<lambda>r. q_user_id r \<noteq> p) (queues s)\<rparr>,
            [ErrorLogged ''try_pair_gender'', ErrorRetry u]) \<and>
         (\<exists>r \<in> set (queues s). q_user_id r = p) \<and>
         (\<forall>r \<in> set (queues (fst (try_pair_gender e s u g))). q_user_id r \<noteq> p)"
proof -
  have res: "try_pair_gender e s u g =
           (s\<lparr>queues := filter (\<lambda>r. q_user_id r \<noteq> p) (queues s)\<rparr>,
            [ErrorLogged ''try_pair_gender'', ErrorRetry u])"
    using assms by (rule try_pair_gender_failed)
  moreover have "\<exists>r \<in> set (queues s). q_user_id r = p"
    using candidate_waits [OF assms(3)] by blast
  ultimately show ?thesis
    by simp
qed

theorem failed_pairing_state_witness:
  "try_pair_gender (refusing PairTx 2500) w2 30 ''male'' =
     (w2\<lparr>queues := filter (\<lambda>r. q_user_id r \<noteq> 10) (queues w2)\<rparr>,
      [ErrorLogged ''try_pair_gender'', ErrorRetry 30]) \<and>
   (\<exists>r \<in> set (queues w2). q_user_id r = 10)"
proof -
  have up: "accepts (refusing PairTx 2500) Select"
    by (simp add: refusing_def)
  have idle: "active_chats w2 30 = None"
    by code_simp
  have cand: "candidate (refusing PairTx 2500) w2 ''male'' = Some 10"
    by (simp add: candidate_def opposite_def get_queue_def refusing_def w2_queues
        row10_def row20_def)
  have down: "\<not> accepts (refusing PairTx 2500) PairTx \<or> (30 :: int) = 10"
    by (simp add: refusing_def)
  from failed_pairing_state [OF up idle cand down] show ?thesis
    by blast
qed

section \<open>When the declared gender is cleared\<close>

lemma stop_own_genders:
  "user_genders (fst (stop_own e s u out)) =
     (if accepts e DeleteOwn \<and> accepts e Commit then (user_genders s)(u := None)
      else user_genders s)"
  by (simp add: stop_own_def remove_from_queue_def Let_def)

lemma end_chat_genders: "user_genders (end_chat e s u p) = user_genders s"
  by (simp add: end_chat_def remove_from_queue_def)

lemma stop_genders:
  assumes "accepts e Select" and "accepts e Notify" and "accepts e DeleteBoth"
    and "accepts e DeleteOwn" and "accepts e Commit"
  shows "user_genders (fst (stop e s u)) = (user_genders s)(u := None)"
proof (cases "lookup_partner s u")
  case None
  then show ?thesis
    using assms by (simp add: stop_def stop_own_genders)
next
  case (Some p)
  then show ?thesis
    using assms by (cases "p = 0") (simp_all add: stop_def stop_own_genders end_chat_genders)
qed

text \<open>
  C6, the claim as worded fails. User 30 declares male in \<open>w2\<close> and is paired
  with user 10: the session of user 10 has started and the declared gender of user 10
  is still stored. In \<open>w3\<close> user 20 has just been paired with user 10, and the
  gender user 20 declared is still stored as well.
\<close>

theorem pairing_keeps_gender_counterexample:
  "map_option partner_id (active_chats (fst (try_pair_gender (env_at 2500) w2 30 ''male'')) 10)
     = Some 30 \<and>
   user_genders (fst (try_pair_gender (env_at 2500) w2 30 ''male'')) 10 = Some ''female'' \<and>
   map_option partner_id (active_chats w3 20) = Some 10 \<and>
   user_genders w3 20 = Some ''male''"
  by code_simp

text \<open>
  C6, amended. \<open>try_pair_gender\<close> never writes \<open>user_genders\<close>: a pairing
  leaves the declared genders of both users as they were (\<open>next_match\<close> reads the
  stored gender to pair the user again). The row of a user is removed by \<open>stop\<close>
  for that user when its calls are accepted, and by \<open>start\<close> for a user without a
  session; no other row is touched.
\<close>

theorem gender_cleared_by_stop:
  "user_genders (fst (try_pair_gender e s u g)) = user_genders s \<and>
   (accepts e Select \<and> accepts e Notify \<and> accepts e DeleteBoth \<and> accepts e DeleteOwn \<and>
    accepts e Commit \<longrightarrow>
      user_genders (fst (stop e s u)) = (user_genders s)(u := None)) \<and>
   (accepts e Select \<and> accepts e WriteGender \<and> active_chats s u = None \<longrightarrow>
      user_genders (fst (start e s u)) = (user_genders s)(u := None))"
proof (intro conjI impI)
  show "user_genders (fst (try_pair_gender e s u g)) = user_genders s"
    using try_pair_gender_fields [of e s u g] by blast
next
  assume "accepts e Select \<and> accepts e Notify \<and> accepts e DeleteBoth \<and> accepts e DeleteOwn \<and>
    accepts e Commit"
  then show "user_genders (fst (stop e s u)) = (user_genders s)(u := None)"
    by (intro stop_genders) simp_all
next
  assume "accepts e Select \<and> accepts e WriteGender \<and> active_chats s u = None"
  then show "user_genders (fst (start e s u)) = (user_genders s)(u := None)"
    by (simp add: start_def)
qed

theorem gender_cleared_by_stop_witness:
  "user_genders w3 10 = Some ''female'' \<and>
   user_genders (fst (stop (env_at 5000) w3 10)) = (user_genders w3)(10 := None) \<and>
   user_genders (fst (start (env_at 2500) w2 20)) = (user_genders w2)(20 := None) \<and>
   user_genders (fst (try_pair_gender (env_at 2500) w2 30 ''male'')) = user_genders w2"
proof -
  have before: "user_genders w3 10 = Some ''female''"
    by code_simp
  have up: "accepts (env_at 5000) Select \<and> accepts (env_at 5000) Notify \<and>
      accepts (env_at 5000) DeleteBoth \<and> accepts (env_at 5000) DeleteOwn \<and>
      accepts (env_at 5000) Commit"
    by (simp add: env_at_def)
  have idle: "accepts (env_at 2500) Select \<and> accepts (env_at 2500) WriteGender \<and>
      active_chats w2 20 = None"
  proof -
    have "active_chats w2 20 = None" by code_simp
    then show ?thesis by (simp add: env_at_def)
  qed
  from gender_cleared_by_stop [of "env_at 5000" w3 10 "''male''"]
    gender_cleared_by_stop [of "env_at 2500" w2 20 "''male''"]
    gender_cleared_by_stop [of "env_at 2500" w2 30 "''male''"]
    before up idle
  show ?thesis
    by blast
qed

section \<open>The forbidden-word check on a relayed text\<close>







section \<open>Sessions are swept five minutes after they were made\<close>













end
